theory Spec2Isabelle
  imports Main "HOL-Library.Word"
begin

section \<open>Strings, positions and parser states (parser.ts, lines 4-13 and 248-306)\<close>

text \<open>
  A JavaScript string is a sequence of 16-bit code units: \<open>s.length\<close> counts code units and
  \<open>s.slice\<close> cuts at code-unit indices. The fields of a position are numbers, that is
  IEEE doubles; the model holds the doubles that are integers (a fraction, \<open>NaN\<close> or an
  infinity in a position field is outside the model). Every integer from \<open>-2^53\<close> to
  \<open>2^53\<close> is a double; beyond, only every second integer up to \<open>2^54\<close> in magnitude,
  then every fourth, and so on.
\<close>

type_synonym jsstring = "16 word list"

record SourcePosition =
  line :: int
  column :: int
  offset :: int

record ParserState =
  input :: jsstring
  pos :: SourcePosition

text \<open>
  \<open>String.prototype.slice(start, end)\<close>: a negative index counts from the end, every index is
  clamped to \<open>[0, length]\<close>, an absent \<open>end\<close> is the length, and an empty span gives the empty
  string.
\<close>

definition slice_index :: "nat \<Rightarrow> int \<Rightarrow> nat" where
  "slice_index len i = (if i < 0 then nat (max (int len + i) 0) else min (nat i) len)"

definition slice :: "jsstring \<Rightarrow> int \<Rightarrow> int option \<Rightarrow> jsstring" where
  "slice s start end =
     (let len = length s;
          from = slice_index len start;
          to = (case end of None \<Rightarrow> len | Some e \<Rightarrow> slice_index len e)
      in take (to - from) (drop from s))"

text \<open>
  \<open>for (const char of consumed)\<close> uses the string iterator, which walks the string by code
  point: a high surrogate (\<open>0xD800..0xDBFF\<close>) immediately followed by a low surrogate
  (\<open>0xDC00..0xDFFF\<close>) is delivered as one two-unit element, any other code unit as a
  one-unit element.
\<close>

definition is_high_surrogate :: "16 word \<Rightarrow> bool" where
  "is_high_surrogate u = (0xD800 \<le> u \<and> u \<le> 0xDBFF)"

definition is_low_surrogate :: "16 word \<Rightarrow> bool" where
  "is_low_surrogate u = (0xDC00 \<le> u \<and> u \<le> 0xDFFF)"

fun string_iterator :: "jsstring \<Rightarrow> jsstring list" where
  "string_iterator [] = []"
| "string_iterator [u] = [u] # []"
| "string_iterator (u # v # rest) =
     (if is_high_surrogate u \<and> is_low_surrogate v
      then [u, v] # string_iterator rest
      else [u] # string_iterator (v # rest))"

text \<open>
  \<open>x++\<close> on a double that holds an integer: the sum \<open>x + 1\<close> rounded to the nearest
  double, ties to the even significand. From \<open>-2^53\<close> to \<open>2^53 - 1\<close> the sum is exact.
  Between \<open>2^53\<close> and \<open>2^54\<close> in magnitude the doubles are the even integers and the sum
  lies halfway between \<open>x\<close> and \<open>x + 2\<close>: the result is the one that is a multiple of 4.
  Beyond \<open>2^54\<close> in magnitude the sum is nearest to \<open>x\<close> itself. So a counter that has
  reached \<open>2^53\<close> stays there.
\<close>

definition js_increment :: "int \<Rightarrow> int" where
  "js_increment x =
     (if - (2 ^ 53) \<le> x \<and> x < 2 ^ 53 then x + 1
      else if - (2 ^ 54) \<le> x \<and> x < 2 ^ 54 then (if x mod 4 = 0 then x else x + 2)
      else x)"

text \<open>The body of the loop of \<open>updatePosition\<close>; \<open>"\n"\<close> is the one-unit string \<open>[0x0A]\<close>.\<close>

definition newline :: jsstring where
  "newline = [0x0A]"

definition updatePosition_step :: "jsstring \<Rightarrow> SourcePosition \<Rightarrow> SourcePosition" where
  "updatePosition_step char p =
     (if char = newline
      then \<lparr> line = js_increment (line p), column = 1, offset = js_increment (offset p) \<rparr>
      else \<lparr> line = line p, column = js_increment (column p),
             offset = js_increment (offset p) \<rparr>)"

definition updatePosition :: "SourcePosition \<Rightarrow> jsstring \<Rightarrow> SourcePosition" where
  "updatePosition p consumed =
     fold updatePosition_step (string_iterator consumed)
       \<lparr> line = line p, column = column p, offset = offset p \<rparr>"

definition initialState :: "jsstring \<Rightarrow> ParserState" where
  "initialState inp = \<lparr> input = inp, pos = \<lparr> line = 1, column = 1, offset = 0 \<rparr> \<rparr>"

text \<open>
  \<open>updateState\<close> spreads \<open>oldState\<close> and then overwrites both of its fields, so the result
  is the two-field state below.
\<close>

definition updateState :: "ParserState \<Rightarrow> ParserState \<Rightarrow> ParserState" where
  "updateState oldState newState =
     (let consumed = slice (input oldState) 0
                       (Some (int (length (input oldState)) - int (length (input newState))))
      in \<lparr> input = slice (input oldState) (int (length consumed)) None,
           pos = updatePosition (pos oldState) consumed \<rparr>)"

text \<open>
  \<open>consumeString(state, consumed?)\<close>: the optional argument is \<open>None\<close> when absent;
  \<open>consumed ?? ""\<close> and \<open>consumed?.length ?? 0\<close> are the two \<open>case\<close> expressions.
\<close>

definition consumeString :: "ParserState \<Rightarrow> jsstring option \<Rightarrow> ParserState" where
  "consumeString state consumed =
     (let newPos = updatePosition (pos state) (case consumed of None \<Rightarrow> [] | Some c \<Rightarrow> c)
      in \<lparr> input = slice (input state)
                      (case consumed of None \<Rightarrow> 0 | Some c \<Rightarrow> int (length c)) None,
           pos = newPos \<rparr>)"

text \<open>
  The text a claim may call "free of surrogate pairs": no high surrogate is immediately
  followed by a low surrogate. On such text the string iterator delivers one element per
  code unit.
\<close>

fun has_surrogate_pair :: "jsstring \<Rightarrow> bool" where
  "has_surrogate_pair [] = False"
| "has_surrogate_pair [u] = False"
| "has_surrogate_pair (u # v # rest) =
     ((is_high_surrogate u \<and> is_low_surrogate v) \<or> has_surrogate_pair (v # rest))"

section \<open>Either (either.ts)\<close>

text \<open>
  \<open>Either<R, L>\<close> is the union of the classes \<open>Left\<close> and \<open>Right\<close>; \<open>Either.left\<close> and
  \<open>Either.right\<close> are the two constructors, \<open>either.left\<close> and \<open>either.right\<close> the two
  fields. \<open>Either.match\<close> takes its two handlers in one object; here they are two
  arguments.
\<close>

datatype ('r, 'l) Either = Left (left: 'l) | Right (right: 'r)

definition isLeft :: "('r, 'l) Either \<Rightarrow> bool" where
  "isLeft either = (case either of Left _ \<Rightarrow> True | Right _ \<Rightarrow> False)"

definition isRight :: "('r, 'l) Either \<Rightarrow> bool" where
  "isRight either = (case either of Left _ \<Rightarrow> False | Right _ \<Rightarrow> True)"

definition match :: "('r, 'l) Either \<Rightarrow> ('l \<Rightarrow> 'b) \<Rightarrow> ('r \<Rightarrow> 'b) \<Rightarrow> 'b" where
  "match either onLeft onRight =
     (if isLeft either then onLeft (left either) else onRight (right either))"

section \<open>Calls of JavaScript functions\<close>

text \<open>
  A call of a JavaScript function returns a value, throws, or does not finish. The parser
  class stores and calls functions it is given (the transition function of a primitive, the
  callbacks of \<open>map\<close>, \<open>flatMap\<close>, \<open>bind\<close> and \<open>error2\<close>, the body of a generator) and
  never catches what they throw, so each of them has an outcome of the type below and
  \<open>js_bind\<close> is the sequencing of two calls. \<open>OutOfFuel\<close> is the outcome of a call
  that did not finish within the fuel the model gives to the driver of \<open>gen\<close>, the only
  loop of the library that can run forever.
\<close>

datatype 'x js = Returns 'x | Throws jsstring | OutOfFuel

definition js_bind :: "'x js \<Rightarrow> ('x \<Rightarrow> 'y js) \<Rightarrow> 'y js" where
  "js_bind m k = (case m of Returns x \<Rightarrow> k x | Throws e \<Rightarrow> Throws e | OutOfFuel \<Rightarrow> OutOfFuel)"

text \<open>An ASCII literal as a JavaScript string, one code unit per character.\<close>

definition utf16 :: "string \<Rightarrow> jsstring" where
  "utf16 s = map (\<lambda>c. of_nat (of_char c)) s"

section \<open>Parser (parser.ts, lines 15-216)\<close>

text \<open>
  \<open>ParserError\<close> has the fields \<open>message\<close>, \<open>expected\<close> and \<open>pos\<close>; the last is
  \<open>error_pos\<close> here, since \<open>pos\<close> is the field of \<open>ParserState\<close>. A \<open>Parser\<close> object holds
  the private transition function \<open>_run\<close> (here \<open>run_fn\<close>), the public \<open>options\<close> and the
  private \<open>errorMessage\<close>, which the constructor sets to \<open>null\<close>.
\<close>

record ParserOptions =
  name :: "jsstring option"

record ParserError =
  message :: jsstring
  expected :: "jsstring list"
  error_pos :: SourcePosition

type_synonym 'r ParserResult = "('r \<times> ParserState, ParserError) Either"

datatype 'r Parser =
  Parser (run_fn: "ParserState \<Rightarrow> 'r ParserResult js")
         (options: "ParserOptions option")
         (errorMessage: "jsstring option")

definition new_Parser :: "(ParserState \<Rightarrow> 'r ParserResult js) \<Rightarrow> ParserOptions option \<Rightarrow> 'r Parser" where
  "new_Parser f opts = Parser f opts None"

text \<open>
  \<open>if (this.errorMessage)\<close> tests a \<open>string | null\<close> for truthiness: \<open>null\<close> and the
  empty string are falsy.
\<close>

definition truthy :: "jsstring option \<Rightarrow> bool" where
  "truthy s = (case s of None \<Rightarrow> False | Some m \<Rightarrow> m \<noteq> [])"

text \<open>The static methods \<open>Parser.succeed\<close>, \<open>Parser.error\<close> and \<open>Parser.fail\<close>.\<close>

definition Parser_succeed :: "'t \<Rightarrow> ParserState \<Rightarrow> jsstring option \<Rightarrow> 't ParserResult" where
  "Parser_succeed v state consumed = Right (v, consumeString state consumed)"

definition Parser_error :: "jsstring \<Rightarrow> jsstring list \<Rightarrow> SourcePosition \<Rightarrow> 't ParserResult" where
  "Parser_error msg exp p = Left \<lparr> message = msg, expected = exp, error_pos = p \<rparr>"

definition Parser_fail :: "jsstring \<Rightarrow> jsstring list option \<Rightarrow> 't Parser" where
  "Parser_fail msg exp =
     new_Parser (\<lambda>state. Returns (Parser_error msg (case exp of None \<Rightarrow> [] | Some xs \<Rightarrow> xs) (pos state)))
       None"

text \<open>The methods \<open>error\<close> and \<open>error2\<close> (lines 53-75).\<close>

definition error :: "'r Parser \<Rightarrow> jsstring \<Rightarrow> 'r Parser" where
  "error this msg =
     new_Parser (\<lambda>state.
        js_bind (run_fn this state) (\<lambda>result.
          if isLeft result
          then Returns (Parser_error msg (expected (left result)) (error_pos (left result)))
          else Returns result))
       (options this)"

definition error2 :: "'r Parser \<Rightarrow> (ParserError \<Rightarrow> jsstring js) \<Rightarrow> 'r Parser" where
  "error2 this onError =
     new_Parser (\<lambda>state.
        js_bind (run_fn this state) (\<lambda>result.
          if isLeft result
          then js_bind (onError (left result)) (\<lambda>msg.
                 Returns (Parser_error msg (expected (left result)) (error_pos (left result))))
          else Returns result))
       (options this)"

text \<open>
  \<open>run\<close> (lines 77-91). The \<open>console.log(this)\<close> of the override branch writes to the
  console and has no effect on the result.
\<close>

definition run :: "'r Parser \<Rightarrow> jsstring \<Rightarrow> 'r ParserResult js" where
  "run this inp =
     js_bind (run_fn this (initialState inp)) (\<lambda>result.
       if isRight result then Returns result
       else if truthy (errorMessage this)
       then Returns (Parser_error (the (errorMessage this))
                       (expected (left result)) (error_pos (left result)))
       else Returns result)"

text \<open>\<open>map\<close> and \<open>flatMap\<close> (lines 93-152).\<close>

definition map_parser :: "'r Parser \<Rightarrow> ('r \<Rightarrow> 'b js) \<Rightarrow> 'b Parser" where
  "map_parser this f =
     new_Parser (\<lambda>state.
        js_bind (run_fn this state) (\<lambda>result.
          if isLeft result \<and> truthy (errorMessage this)
          then Returns (Parser_error (the (errorMessage this))
                          (expected (left result)) (error_pos (left result)))
          else match result
                 (\<lambda>l. Returns (Left l))
                 (\<lambda>(v, newState). js_bind (f v) (\<lambda>b. Returns (Right (b, newState))))))
       (options this)"

definition flatMap :: "'r Parser \<Rightarrow> ('r \<Rightarrow> 'b Parser js) \<Rightarrow> 'b Parser" where
  "flatMap this f =
     new_Parser (\<lambda>state.
        js_bind (run_fn this state) (\<lambda>result.
          if isLeft result \<and> truthy (errorMessage this)
          then Returns (Parser_error (the (errorMessage this))
                          (expected (left result)) (error_pos (left result)))
          else match result
                 (\<lambda>l. Returns (Left l))
                 (\<lambda>(v, newState). js_bind (f v) (\<lambda>nextParser. run_fn nextParser newState))))
       (options this)"

text \<open>\<open>Parser.pure\<close> and \<open>Parser.Do\<close> (lines 154-160); \<open>{}\<close> is the empty record.\<close>

definition Parser_pure :: "'a \<Rightarrow> 'a Parser" where
  "Parser_pure a = new_Parser (\<lambda>inp. Returns (Right (a, inp))) None"

definition Parser_Do :: "(jsstring \<rightharpoonup> 'v) Parser" where
  "Parser_Do = Parser_pure Map.empty"

text \<open>\<open>zip\<close> (lines 162-173); the new parser is built without options.\<close>

definition zip_parser :: "'r Parser \<Rightarrow> 'b Parser \<Rightarrow> ('r \<times> 'b) Parser" where
  "zip_parser this parserB =
     new_Parser (\<lambda>state.
        js_bind (run_fn this state) (\<lambda>resultA.
          match resultA
            (\<lambda>l. Returns (Left l))
            (\<lambda>(a, restA).
               js_bind (run_fn parserB restA) (\<lambda>resultB.
                 match resultB
                   (\<lambda>l. Returns (Left l))
                   (\<lambda>(b, restB). Returns (Right ((a, b), restB)))))))
       None"

text \<open>
  \<open>bind\<close> (lines 175-216). The accumulated value is an object, modelled as a finite map
  from property names to values; \<open>{ ...value, [k]: b }\<close> copies the properties of
  \<open>value\<close> and then sets \<open>k\<close>. The second argument is a parser or a function, told
  apart by \<open>other instanceof Parser\<close>.
\<close>

datatype ('a, 'b) ParserOrFunction = IsParser "'b Parser" | IsFunction "'a \<Rightarrow> 'b Parser js"

definition bind ::
  "(jsstring \<rightharpoonup> 'v) Parser \<Rightarrow> jsstring \<Rightarrow> (jsstring \<rightharpoonup> 'v, 'v) ParserOrFunction
     \<Rightarrow> (jsstring \<rightharpoonup> 'v) Parser" where
  "bind this k other =
     new_Parser (\<lambda>state.
        js_bind (run_fn this state) (\<lambda>result.
          if isLeft result \<and> truthy (errorMessage this)
          then Returns (Parser_error (the (errorMessage this))
                          (expected (left result)) (error_pos (left result)))
          else match result
                 (\<lambda>l. Returns (Left l))
                 (\<lambda>(v, newState).
                    js_bind (case other of IsParser p \<Rightarrow> Returns p | IsFunction f \<Rightarrow> f v)
                      (\<lambda>nextParser.
                         js_bind (run_fn nextParser newState) (\<lambda>result2.
                           match result2
                             (\<lambda>l. Returns (Left l))
                             (\<lambda>(b, finalState). Returns (Right (v(k \<mapsto> b), finalState))))))))
       (options this)"

section \<open>Parser.gen (parser.ts, lines 218-245)\<close>

text \<open>
  The values a generator yields, returns and is sent are untyped (\<open>any\<close>): \<open>undefined\<close>,
  a parser (\<open>value instanceof Parser\<close>), or any other value. (The method
  \<open>[Symbol.iterator]\<close> of a parser yields the parser itself and returns what it is sent,
  so \<open>yield* parser\<close> in a generator body is a yield of that parser.)
\<close>

datatype 'a JSValue = Undefined | Plain 'a | is_Parser: ParserValue "'a JSValue Parser"

text \<open>
  A generator object is suspended in some state of its body or completed. \<open>iterator.next(x)\<close>
  resumes a suspended body with \<open>x\<close>, which yields or returns and moves to its next state;
  a completed generator answers \<open>{ value: undefined, done: true }\<close>, and a generator whose
  body throws is completed. The body is the generator function \<open>f\<close> after it has been
  applied to the adapter \<open>$\<close>.
\<close>

datatype 'v IteratorResult = IteratorYieldResult 'v | IteratorReturnResult 'v

datatype 'g Generator = Suspended 'g | Completed

type_synonym ('g, 'a) GeneratorBody = "'g \<Rightarrow> 'a JSValue \<Rightarrow> ('a JSValue IteratorResult \<times> 'g) js"

text \<open>
  \<open>gen\<close> creates one generator object (\<open>const iterator = f(...)\<close>) and every callback of the
  parser it builds calls \<open>iterator.next\<close> on that same object: the object is mutable state
  shared by all runs of the parser. A call that can reach it takes the state of the object
  and returns it updated, next to its outcome; \<open>gen_bind\<close> sequences two such calls (what
  a throwing call did to the object stays done) and \<open>gen_pure_call\<close> is a call that leaves
  the object alone.
\<close>

type_synonym ('g, 'x) gen_call = "'g Generator \<Rightarrow> 'x js \<times> 'g Generator"

definition gen_bind :: "('g, 'x) gen_call \<Rightarrow> ('x \<Rightarrow> ('g, 'y) gen_call) \<Rightarrow> ('g, 'y) gen_call" where
  "gen_bind m k iterator =
     (case m iterator of
        (Returns x, iterator') \<Rightarrow> k x iterator'
      | (Throws e, iterator') \<Rightarrow> (Throws e, iterator')
      | (OutOfFuel, iterator') \<Rightarrow> (OutOfFuel, iterator'))"

definition gen_pure_call :: "'x js \<Rightarrow> ('g, 'x) gen_call" where
  "gen_pure_call m iterator = (m, iterator)"

definition iterator_next ::
  "('g, 'a) GeneratorBody \<Rightarrow> 'a JSValue \<Rightarrow> ('g, 'a JSValue IteratorResult) gen_call" where
  "iterator_next body sent iterator =
     (case iterator of
        Completed \<Rightarrow> (Returns (IteratorReturnResult Undefined), Completed)
      | Suspended g \<Rightarrow>
          (case body g sent of
             Returns (r, g') \<Rightarrow>
               (case r of
                  IteratorYieldResult y \<Rightarrow> (Returns (IteratorYieldResult y), Suspended g')
                | IteratorReturnResult v \<Rightarrow> (Returns (IteratorReturnResult v), Completed))
           | Throws e \<Rightarrow> (Throws e, Completed)
           | OutOfFuel \<Rightarrow> (OutOfFuel, Suspended g)))"

text \<open>
  The parsers that \<open>gen\<close> builds are \<open>Parser\<close> objects whose transition function reaches
  the generator object. \<open>of_Parser\<close> is an ordinary parser among them (the values a
  generator yields and returns are ordinary parsers), and \<open>flatMap_gen\<close> is the method
  \<open>flatMap\<close> (lines 134-152) of an ordinary parser, with a callback that reaches the
  generator object as the callback of \<open>gen\<close> does. \<open>run_gen\<close> is the method \<open>run\<close>.
\<close>

datatype ('g, 'r) GenParser =
  GenParser (gen_run_fn: "ParserState \<Rightarrow> ('g, 'r ParserResult) gen_call")
            (gen_options: "ParserOptions option")
            (gen_errorMessage: "jsstring option")

definition of_Parser :: "'r Parser \<Rightarrow> ('g, 'r) GenParser" where
  "of_Parser p = GenParser (\<lambda>state. gen_pure_call (run_fn p state)) (options p) (errorMessage p)"

definition flatMap_gen ::
  "'r Parser \<Rightarrow> ('r \<Rightarrow> ('g, ('g, 'b) GenParser) gen_call) \<Rightarrow> ('g, 'b) GenParser" where
  "flatMap_gen this f =
     GenParser (\<lambda>state.
        gen_bind (gen_pure_call (run_fn this state)) (\<lambda>result.
          if isLeft result \<and> truthy (errorMessage this)
          then gen_pure_call (Returns (Parser_error (the (errorMessage this))
                                 (expected (left result)) (error_pos (left result))))
          else match result
                 (\<lambda>l. gen_pure_call (Returns (Left l)))
                 (\<lambda>(v, newState). gen_bind (f v) (\<lambda>nextParser. gen_run_fn nextParser newState))))
       (options this) None"

definition run_gen :: "('g, 'r) GenParser \<Rightarrow> jsstring \<Rightarrow> ('g, 'r ParserResult) gen_call" where
  "run_gen this inp =
     gen_bind (gen_run_fn this (initialState inp)) (\<lambda>result.
       if isRight result then gen_pure_call (Returns result)
       else if truthy (gen_errorMessage this)
       then gen_pure_call (Returns (Parser_error (the (gen_errorMessage this))
                              (expected (left result)) (error_pos (left result))))
       else gen_pure_call (Returns result))"

text \<open>
  The inner function \<open>run(state)\<close> of \<open>gen\<close> (lines 228-242). It builds the parser without
  touching the generator object; the callback it hands to \<open>flatMap\<close> calls
  \<open>iterator.next(result)\<close> on the object as it is when the callback runs, and then \<open>run\<close>
  again. Each call of \<open>run\<close> uses one unit of fuel.
\<close>

fun gen_run ::
  "('g, 'a) GeneratorBody \<Rightarrow> nat \<Rightarrow> 'a JSValue IteratorResult \<Rightarrow> ('g, 'a JSValue) GenParser js" where
  "gen_run body 0 state = OutOfFuel"
| "gen_run body (Suc fuel) (IteratorReturnResult v) =
     (case v of
        ParserValue p \<Rightarrow> Returns (of_Parser p)
      | _ \<Rightarrow> Returns (of_Parser (Parser_pure v)))"
| "gen_run body (Suc fuel) (IteratorYieldResult v) =
     (case v of
        ParserValue p \<Rightarrow>
          Returns (flatMap_gen p (\<lambda>result.
            gen_bind (iterator_next body result) (\<lambda>state'.
              gen_pure_call (gen_run body fuel state'))))
      | _ \<Rightarrow> Throws (utf16 ''Expected a Parser''))"

text \<open>
  \<open>gen\<close> itself (lines 227 and 244): it creates the generator object, suspended at the start
  of the body, resumes it once, and builds the parser from the first result. The outcome
  is the parser, next to the generator object as the building left it.
\<close>

definition Parser_gen ::
  "('g, 'a) GeneratorBody \<Rightarrow> 'g \<Rightarrow> nat \<Rightarrow> ('g, 'a JSValue) GenParser js \<times> 'g Generator" where
  "Parser_gen body init fuel =
     gen_bind (iterator_next body Undefined) (\<lambda>state. gen_pure_call (gen_run body fuel state))
       (Suspended init)"

text \<open>Running, on \<open>s\<close>, the parser that \<open>run(state)\<close> builds.\<close>

definition gen_exec ::
  "('g, 'a) GeneratorBody \<Rightarrow> nat \<Rightarrow> 'a JSValue IteratorResult \<Rightarrow> ParserState
     \<Rightarrow> ('g, 'a JSValue ParserResult) gen_call" where
  "gen_exec body fuel state s =
     gen_bind (gen_pure_call (gen_run body fuel state)) (\<lambda>p. gen_run_fn p s)"

text \<open>
  The driving of the sequence as the specification words it, from a generator object in a
  given state: the yielded parsers run in order, each on the state the previous one left; a
  failure ends the sequence with that failure (with the override of the failing parser
  substituted, as \<open>flatMap\<close> does); a success value is sent to the generator to obtain the
  next step; on completion a final value that is a parser is run as it is, and any other
  final value is the result, with the state unchanged. The last argument is the generator
  object as the driving leaves it.
\<close>

inductive gen_spec ::
  "('g, 'a) GeneratorBody \<Rightarrow> 'g Generator \<Rightarrow> 'a JSValue IteratorResult \<Rightarrow> ParserState
     \<Rightarrow> 'a JSValue ParserResult js \<Rightarrow> 'g Generator \<Rightarrow> bool"
  for body :: "('g, 'a) GeneratorBody" where
  final_parser:
    "gen_spec body iterator (IteratorReturnResult (ParserValue p)) s (run_fn p s) iterator"
| final_value:
    "\<not> is_Parser v \<Longrightarrow>
     gen_spec body iterator (IteratorReturnResult v) s (Returns (Right (v, s))) iterator"
| yielded_fails:
    "run_fn p s = Returns (Left e) \<Longrightarrow>
     gen_spec body iterator (IteratorYieldResult (ParserValue p)) s
       (Returns (Left (if truthy (errorMessage p) then e \<lparr> message := the (errorMessage p) \<rparr> else e)))
       iterator"
| yielded_succeeds:
    "run_fn p s = Returns (Right (v, s')) \<Longrightarrow>
     iterator_next body v iterator = (Returns state', iterator') \<Longrightarrow>
     gen_spec body iterator' state' s' out final \<Longrightarrow>
     gen_spec body iterator (IteratorYieldResult (ParserValue p)) s out final"

code_pred gen_spec .

section \<open>A primitive recognizer and a generator, as a caller writes them\<close>

text \<open>
  The library has no primitive of its own. \<open>string_literal w\<close> is the usual one, written
  with \<open>Parser.succeed\<close> and \<open>Parser.error\<close>: it consumes \<open>w\<close> when the input starts
  with it. \<open>example_generator\<close> is the body of
  \<^verbatim>\<open>function* () { const a = yield A; if (a !== "a") return a; const b = yield B; return b }\<close>
  with \<open>A\<close> and \<open>B\<close> the literals \<open>"a"\<close> and \<open>"b"\<close>.
\<close>

definition string_literal :: "jsstring \<Rightarrow> jsstring Parser" where
  "string_literal w =
     new_Parser (\<lambda>state.
        if slice (input state) 0 (Some (int (length w))) = w
        then Returns (Parser_succeed w state (Some w))
        else Returns (Parser_error (utf16 ''no match'') [w] (pos state)))
       None"

datatype example_state = AtStart | AfterA | AfterB | Finished

definition example_generator :: "(example_state, jsstring) GeneratorBody" where
  "example_generator g sent =
     (case g of
        AtStart \<Rightarrow>
          Returns (IteratorYieldResult
                     (ParserValue (map_parser (string_literal (utf16 ''a'')) (\<lambda>w. Returns (Plain w)))),
                   AfterA)
      | AfterA \<Rightarrow>
          (if sent = Plain (utf16 ''a'')
           then Returns (IteratorYieldResult
                  (ParserValue (map_parser (string_literal (utf16 ''b'')) (\<lambda>w. Returns (Plain w)))),
                  AfterB)
           else Returns (IteratorReturnResult sent, Finished))
      | AfterB \<Rightarrow> Returns (IteratorReturnResult sent, Finished)
      | Finished \<Rightarrow> Returns (IteratorReturnResult Undefined, Finished))"

section \<open>Position tracking: properties\<close>

lemma js_increment_exact: "- (2 ^ 53) \<le> x \<Longrightarrow> x < 2 ^ 53 \<Longrightarrow> js_increment x = x + 1"
  by (simp add: js_increment_def)

text \<open>At \<open>2^53\<close> the counters of the source stop: two characters leave the offset there.\<close>

lemma updatePosition_at_2_53:
  "updatePosition \<lparr> line = 2 ^ 53, column = 2 ^ 53, offset = 2 ^ 53 \<rparr> [0x61, 0x0A]
     = \<lparr> line = 2 ^ 53, column = 1, offset = 2 ^ 53 \<rparr>"
  by (simp add: updatePosition_def updatePosition_step_def js_increment_def newline_def
                is_high_surrogate_def)

lemma fold_step_offset:
  "- (2 ^ 53) \<le> offset p \<Longrightarrow> offset p + int (length xs) \<le> 2 ^ 53 \<Longrightarrow>
   offset (fold updatePosition_step xs p) = offset p + int (length xs)"
proof (induction xs arbitrary: p)
  case Nil
  then show ?case by simp
next
  case (Cons x xs)
  have step: "offset (updatePosition_step x p) = offset p + 1"
    using Cons.prems by (simp add: updatePosition_step_def js_increment_exact)
  have "offset (fold updatePosition_step xs (updatePosition_step x p))
          = offset (updatePosition_step x p) + int (length xs)"
    using Cons.prems step by (intro Cons.IH) simp_all
  with step show ?case by simp
qed

lemma length_string_iterator:
  "\<not> has_surrogate_pair c \<Longrightarrow> length (string_iterator c) = length c"
  by (induction c rule: string_iterator.induct) auto

lemma length_string_iterator_le: "length (string_iterator c) \<le> length c"
  by (induction c rule: string_iterator.induct) auto

lemma fold_step_line:
  "newline \<notin> set xs \<Longrightarrow> line (fold updatePosition_step xs p) = line p"
  by (induction xs arbitrary: p) (auto simp: updatePosition_step_def)

lemma fold_step_column:
  "newline \<notin> set xs \<Longrightarrow> - (2 ^ 53) \<le> column p \<Longrightarrow>
   column p + int (length xs) \<le> 2 ^ 53 \<Longrightarrow>
   column (fold updatePosition_step xs p) = column p + int (length xs)"
proof (induction xs arbitrary: p)
  case Nil
  then show ?case by simp
next
  case (Cons x xs)
  have step: "column (updatePosition_step x p) = column p + 1"
    using Cons.prems by (auto simp: updatePosition_step_def js_increment_exact)
  have "column (fold updatePosition_step xs (updatePosition_step x p))
          = column (updatePosition_step x p) + int (length xs)"
    using Cons.prems step by (intro Cons.IH) simp_all
  with step show ?case by simp
qed

lemma string_iterator_no_newline:
  "0x0A \<notin> set c \<Longrightarrow> newline \<notin> set (string_iterator c)"
  by (induction c rule: string_iterator.induct) (auto simp: newline_def)

lemma string_iterator_snoc_newline:
  "string_iterator (c @ [0x0A]) = string_iterator c @ [newline]"
  by (induction c rule: string_iterator.induct)
     (simp_all add: newline_def is_low_surrogate_def)

lemma updatePosition_Nil: "updatePosition p [] = p"
  by (simp add: updatePosition_def)

lemma slice_from: "slice s (int n) None = drop n s"
  by (cases "n \<le> length s") (simp_all add: slice_def slice_index_def Let_def min_def)

lemma slice_prefix: "0 \<le> k \<Longrightarrow> slice s 0 (Some k) = take (nat k) s"
  by (simp add: slice_def slice_index_def Let_def min_def)

text \<open>
  Claim C1, as stated, with the length of the consumed text read as \<open>consumed.length\<close>:
  it fails on the two code units of one astral character (U+1F600), which the loop visits
  once.
\<close>

theorem updatePosition_offset_counterexample:
  "offset (updatePosition \<lparr> line = 1, column = 1, offset = 0 \<rparr> [0xD83D, 0xDE00]) = 1 \<and>
   offset \<lparr> line = 1, column = 1, offset = 0 \<rparr> + int (length [0xD83D, 0xDE00 :: 16 word]) = 2 \<and>
   offset (updatePosition \<lparr> line = 1, column = 1, offset = 0 \<rparr> [0xD83D, 0xDE00])
     \<noteq> offset \<lparr> line = 1, column = 1, offset = 0 \<rparr> + int (length [0xD83D, 0xDE00 :: 16 word])"
  by (simp add: updatePosition_def updatePosition_step_def js_increment_def newline_def
                is_high_surrogate_def is_low_surrogate_def)

text \<open>
  Claim C1, amended: for a position whose offset is an integer not below \<open>-2^53\<close>, and a
  text that does not take the offset beyond \<open>2^53\<close>, \<open>updatePosition\<close> adds to \<open>offset\<close>
  one per element the string iterator delivers (one per code point), whatever the element
  is; on text free of surrogate pairs this is the length of the text.
\<close>

theorem updatePosition_offset:
  "(- (2 ^ 53) \<le> offset p \<and> offset p + int (length (string_iterator c)) \<le> 2 ^ 53 \<longrightarrow>
      offset (updatePosition p c) = offset p + int (length (string_iterator c))) \<and>
   (- (2 ^ 53) \<le> offset p \<and> offset p + int (length c) \<le> 2 ^ 53 \<and> \<not> has_surrogate_pair c \<longrightarrow>
      offset (updatePosition p c) = offset p + int (length c))"
proof (intro conjI impI)
  assume "- (2 ^ 53) \<le> offset p \<and> offset p + int (length (string_iterator c)) \<le> 2 ^ 53"
  then show "offset (updatePosition p c) = offset p + int (length (string_iterator c))"
    by (simp add: updatePosition_def fold_step_offset)
next
  assume a: "- (2 ^ 53) \<le> offset p \<and> offset p + int (length c) \<le> 2 ^ 53 \<and>
             \<not> has_surrogate_pair c"
  then have "length (string_iterator c) = length c"
    by (simp add: length_string_iterator)
  with a show "offset (updatePosition p c) = offset p + int (length c)"
    by (simp add: updatePosition_def fold_step_offset)
qed

theorem updatePosition_offset_witness:
  "offset (updatePosition \<lparr> line = 1, column = 1, offset = 0 \<rparr> [0x61, 0xD83D, 0xDE00]) = 2 \<and>
   offset (updatePosition \<lparr> line = 1, column = 1, offset = 0 \<rparr> [0x61, 0x0A, 0x62]) = 3"
proof -
  let ?p = "\<lparr> line = 1, column = 1, offset = 0 \<rparr>"
  have h1: "- (2 ^ 53) \<le> offset ?p \<and>
            offset ?p + int (length (string_iterator [0x61, 0xD83D, 0xDE00])) \<le> 2 ^ 53"
    by (simp add: is_high_surrogate_def is_low_surrogate_def)
  have h2: "- (2 ^ 53) \<le> offset ?p \<and> offset ?p + int (length [0x61, 0x0A, 0x62 :: 16 word]) \<le> 2 ^ 53 \<and>
            \<not> has_surrogate_pair [0x61, 0x0A, 0x62]"
    by (simp add: is_high_surrogate_def)
  from updatePosition_offset [of ?p "[0x61, 0xD83D, 0xDE00]"] h1
  have "offset (updatePosition ?p [0x61, 0xD83D, 0xDE00])
          = offset ?p + int (length (string_iterator [0x61, 0xD83D, 0xDE00]))"
    by blast
  then have 1: "offset (updatePosition ?p [0x61, 0xD83D, 0xDE00]) = 2"
    by (simp add: is_high_surrogate_def is_low_surrogate_def)
  from updatePosition_offset [of ?p "[0x61, 0x0A, 0x62]"] h2
  have "offset (updatePosition ?p [0x61, 0x0A, 0x62]) = offset ?p + int (length [0x61, 0x0A, 0x62 :: 16 word])"
    by blast
  then have 2: "offset (updatePosition ?p [0x61, 0x0A, 0x62]) = 3"
    by simp
  from 1 2 show ?thesis by blast
qed

text \<open>
  Claim C8, as stated, with the length of the consumed text read as \<open>consumed.length\<close>:
  the column part fails on the same newline-free text of two code units.
\<close>

theorem updatePosition_line_column_counterexample:
  "0x0A \<notin> set [0xD83D, 0xDE00 :: 16 word] \<and>
   column (updatePosition \<lparr> line = 1, column = 1, offset = 0 \<rparr> [0xD83D, 0xDE00]) = 2 \<and>
   column \<lparr> line = 1, column = 1, offset = 0 \<rparr> + int (length [0xD83D, 0xDE00 :: 16 word]) = 3 \<and>
   column (updatePosition \<lparr> line = 1, column = 1, offset = 0 \<rparr> [0xD83D, 0xDE00])
     \<noteq> column \<lparr> line = 1, column = 1, offset = 0 \<rparr> + int (length [0xD83D, 0xDE00 :: 16 word])"
  by (simp add: updatePosition_def updatePosition_step_def js_increment_def newline_def
                is_high_surrogate_def is_low_surrogate_def)

text \<open>
  Claim C8, amended: on text without a newline the line is unchanged and, for a column that is
  an integer not below \<open>-2^53\<close> and is not taken beyond \<open>2^53\<close>, the column advances by the
  number of elements the string iterator delivers, which is the length of the text when it
  has no surrogate pair; on text whose only newline is its last code unit the resulting
  column is 1 and, for a line that is an integer from \<open>-2^53\<close> to \<open>2^53 - 1\<close>, the line is
  one more.
\<close>

theorem updatePosition_line_column:
  "(0x0A \<notin> set c \<longrightarrow> line (updatePosition p c) = line p) \<and>
   (0x0A \<notin> set c \<and> - (2 ^ 53) \<le> column p \<and>
    column p + int (length (string_iterator c)) \<le> 2 ^ 53 \<longrightarrow>
      column (updatePosition p c) = column p + int (length (string_iterator c))) \<and>
   (0x0A \<notin> set c \<and> \<not> has_surrogate_pair c \<and> - (2 ^ 53) \<le> column p \<and>
    column p + int (length c) \<le> 2 ^ 53 \<longrightarrow>
      column (updatePosition p c) = column p + int (length c)) \<and>
   (0x0A \<notin> set c \<longrightarrow> column (updatePosition p (c @ [0x0A])) = 1) \<and>
   (0x0A \<notin> set c \<and> - (2 ^ 53) \<le> line p \<and> line p < 2 ^ 53 \<longrightarrow>
      line (updatePosition p (c @ [0x0A])) = line p + 1)"
proof (intro conjI impI)
  assume "0x0A \<notin> set c"
  then have nl: "newline \<notin> set (string_iterator c)"
    by (rule string_iterator_no_newline)
  then show "line (updatePosition p c) = line p"
    by (simp add: updatePosition_def fold_step_line)
  show "column (updatePosition p (c @ [0x0A])) = 1"
    by (simp add: updatePosition_def string_iterator_snoc_newline updatePosition_step_def)
next
  assume a: "0x0A \<notin> set c \<and> - (2 ^ 53) \<le> column p \<and>
             column p + int (length (string_iterator c)) \<le> 2 ^ 53"
  then have "newline \<notin> set (string_iterator c)"
    by (simp add: string_iterator_no_newline)
  with a show "column (updatePosition p c) = column p + int (length (string_iterator c))"
    by (simp add: updatePosition_def fold_step_column)
next
  assume a: "0x0A \<notin> set c \<and> \<not> has_surrogate_pair c \<and> - (2 ^ 53) \<le> column p \<and>
             column p + int (length c) \<le> 2 ^ 53"
  then have "newline \<notin> set (string_iterator c)" and "length (string_iterator c) = length c"
    by (simp_all add: string_iterator_no_newline length_string_iterator)
  with a show "column (updatePosition p c) = column p + int (length c)"
    by (simp add: updatePosition_def fold_step_column)
next
  assume a: "0x0A \<notin> set c \<and> - (2 ^ 53) \<le> line p \<and> line p < 2 ^ 53"
  then have "newline \<notin> set (string_iterator c)"
    by (simp add: string_iterator_no_newline)
  then have "line (fold updatePosition_step (string_iterator c) q) = line q" for q
    by (simp add: fold_step_line)
  with a show "line (updatePosition p (c @ [0x0A])) = line p + 1"
    by (simp add: updatePosition_def string_iterator_snoc_newline updatePosition_step_def
                  js_increment_exact)
qed

theorem updatePosition_line_column_witness:
  "line (updatePosition \<lparr> line = 3, column = 5, offset = 20 \<rparr> [0x61, 0x62]) = 3 \<and>
   column (updatePosition \<lparr> line = 3, column = 5, offset = 20 \<rparr> [0x61, 0x62]) = 7 \<and>
   column (updatePosition \<lparr> line = 3, column = 5, offset = 20 \<rparr> [0xD83D, 0xDE00, 0x62]) = 7 \<and>
   column (updatePosition \<lparr> line = 3, column = 5, offset = 20 \<rparr> ([0x61, 0x62] @ [0x0A])) = 1 \<and>
   line (updatePosition \<lparr> line = 3, column = 5, offset = 20 \<rparr> ([0x61, 0x62] @ [0x0A])) = 4"
proof -
  let ?p = "\<lparr> line = 3, column = 5, offset = 20 \<rparr>"
  let ?c = "[0x61, 0x62] :: jsstring" and ?d = "[0xD83D, 0xDE00, 0x62] :: jsstring"
  have nl: "0x0A \<notin> set ?c"
    by simp
  have h2: "0x0A \<notin> set ?d \<and> - (2 ^ 53) \<le> column ?p \<and>
            column ?p + int (length (string_iterator ?d)) \<le> 2 ^ 53"
    by (simp add: is_high_surrogate_def is_low_surrogate_def)
  have h3: "0x0A \<notin> set ?c \<and> \<not> has_surrogate_pair ?c \<and> - (2 ^ 53) \<le> column ?p \<and>
            column ?p + int (length ?c) \<le> 2 ^ 53"
    by (simp add: is_high_surrogate_def)
  have h5: "0x0A \<notin> set ?c \<and> - (2 ^ 53) \<le> line ?p \<and> line ?p < 2 ^ 53"
    by simp
  note T = updatePosition_line_column [of ?c ?p]
  note U = updatePosition_line_column [of ?d ?p]
  from T nl have "line (updatePosition ?p ?c) = line ?p"
    by blast
  then have 1: "line (updatePosition ?p ?c) = 3"
    by simp
  from T h3 have "column (updatePosition ?p ?c) = column ?p + int (length ?c)"
    by blast
  then have 2: "column (updatePosition ?p ?c) = 7"
    by simp
  from U h2 have "column (updatePosition ?p ?d) = column ?p + int (length (string_iterator ?d))"
    by blast
  then have 3: "column (updatePosition ?p ?d) = 7"
    by (simp add: is_high_surrogate_def is_low_surrogate_def)
  from T nl have 4: "column (updatePosition ?p (?c @ [0x0A])) = 1"
    by blast
  from T h5 have "line (updatePosition ?p (?c @ [0x0A])) = line ?p + 1"
    by blast
  then have 5: "line (updatePosition ?p (?c @ [0x0A])) = 4"
    by simp
  from 1 2 3 4 5 show ?thesis by blast
qed

text \<open>
  Claim C2: when the input of \<open>newState\<close> is a suffix of the input of \<open>oldState\<close>,
  the text \<open>updateState\<close> takes as consumed is the leading prefix of the old input whose
  length is the difference of the two lengths; the result's input is the old input without
  that prefix, which is the new input, and its position is \<open>updatePosition\<close> of the old
  position and that prefix.
\<close>

theorem updateState_suffix:
  assumes "input oldState = consumed @ input newState"
  shows "slice (input oldState) 0
           (Some (int (length (input oldState)) - int (length (input newState)))) = consumed \<and>
         consumed = take (length (input oldState) - length (input newState)) (input oldState) \<and>
         input (updateState oldState newState) = drop (length consumed) (input oldState) \<and>
         input (updateState oldState newState) = input newState \<and>
         pos (updateState oldState newState) = updatePosition (pos oldState) consumed"
proof -
  have diff: "int (length (input oldState)) - int (length (input newState)) = int (length consumed)"
    using assms by simp
  have pre: "slice (input oldState) 0
           (Some (int (length (input oldState)) - int (length (input newState)))) = consumed"
    unfolding diff using assms by (simp add: slice_prefix)
  show ?thesis
    using assms pre by (simp add: updateState_def Let_def slice_from)
qed

theorem updateState_suffix_witness:
  "input (updateState
       \<lparr> input = [0x66, 0x6F, 0x0A, 0x62], pos = \<lparr> line = 1, column = 1, offset = 0 \<rparr> \<rparr>
       \<lparr> input = [0x62], pos = \<lparr> line = 9, column = 9, offset = 9 \<rparr> \<rparr>) = [0x62] \<and>
   pos (updateState
       \<lparr> input = [0x66, 0x6F, 0x0A, 0x62], pos = \<lparr> line = 1, column = 1, offset = 0 \<rparr> \<rparr>
       \<lparr> input = [0x62], pos = \<lparr> line = 9, column = 9, offset = 9 \<rparr> \<rparr>)
     = \<lparr> line = 2, column = 1, offset = 3 \<rparr>"
proof -
  have h: "input \<lparr> input = [0x66, 0x6F, 0x0A, 0x62 :: 16 word], pos = \<lparr> line = 1, column = 1, offset = 0 \<rparr> \<rparr>
        = [0x66, 0x6F, 0x0A] @ input \<lparr> input = [0x62 :: 16 word], pos = \<lparr> line = 9, column = 9, offset = 9 \<rparr> \<rparr>"
    by simp
  show ?thesis
    using updateState_suffix [OF h]
    by (simp add: updatePosition_def updatePosition_step_def js_increment_def newline_def is_high_surrogate_def)
qed

text \<open>
  Claim C9: \<open>consumeString\<close> drops the first \<open>consumed.length\<close> code units of the input
  and moves the position by \<open>updatePosition\<close>; with the argument absent or empty the state
  is returned unchanged.
\<close>

theorem consumeString_spec:
  "consumeString s (Some c)
     = \<lparr> input = drop (length c) (input s), pos = updatePosition (pos s) c \<rparr> \<and>
   consumeString s None = s \<and>
   consumeString s (Some []) = s"
  by (simp add: consumeString_def slice_from updatePosition_Nil
                slice_from [of _ 0, simplified])

section \<open>Parser combinators: properties\<close>

lemma js_bind_simps [simp]:
  "js_bind (Returns x) k = k x"
  "js_bind (Throws ex) k = Throws ex"
  "js_bind OutOfFuel k = OutOfFuel"
  by (simp_all add: js_bind_def)

lemma isLeft_simps [simp]:
  "isLeft (Left l) = True" "isLeft (Right r) = False"
  "isRight (Left l) = False" "isRight (Right r) = True"
  by (simp_all add: isLeft_def isRight_def)

lemma match_simps [simp]:
  "match (Left l) onLeft onRight = onLeft l"
  "match (Right r) onLeft onRight = onRight r"
  by (simp_all add: match_def)

lemma new_Parser_sel [simp]:
  "run_fn (new_Parser f opts) = f"
  "options (new_Parser f opts) = opts"
  "errorMessage (new_Parser f opts) = None"
  by (simp_all add: new_Parser_def)

lemma truthy_simps [simp]:
  "truthy None = False" "truthy (Some m) = (m \<noteq> [])"
  by (simp_all add: truthy_def)

lemma utf16_simps [simp]: "utf16 [] = []" "utf16 (c # cs) = of_nat (of_char c) # utf16 cs"
  by (simp_all add: utf16_def)

lemmas eval_defs =
  string_literal_def Parser_succeed_def Parser_error_def consumeString_def
  updatePosition_def updatePosition_step_def js_increment_def newline_def is_high_surrogate_def
  is_low_surrogate_def slice_def slice_index_def initialState_def Let_def

lemma run_failure:
  "run p inp = Returns (Left e) \<Longrightarrow>
   \<exists>e0. run_fn p (initialState inp) = Returns (Left e0) \<and>
        expected e0 = expected e \<and> error_pos e0 = error_pos e \<and>
        e = (if truthy (errorMessage p)
             then \<lparr> message = the (errorMessage p), expected = expected e0, error_pos = error_pos e0 \<rparr>
             else e0)"
proof (cases "run_fn p (initialState inp)")
  case (Returns result)
  assume r: "run p inp = Returns (Left e)"
  show ?thesis
  proof (cases result)
    case (Left e0)
    with Returns r show ?thesis
      by (auto simp: run_def Parser_error_def split: if_splits)
  next
    case (Right r0)
    with Returns r show ?thesis by (simp add: run_def)
  qed
qed (simp_all add: run_def)

lemma run_success:
  "run p inp = Returns (Right r) \<Longrightarrow> run_fn p (initialState inp) = Returns (Right r)"
proof (cases "run_fn p (initialState inp)")
  case (Returns result)
  assume r: "run p inp = Returns (Right r)"
  show ?thesis
  proof (cases result)
    case (Left e0)
    with Returns r show ?thesis
      by (auto simp: run_def Parser_error_def split: if_splits)
  next
    case (Right r0)
    with Returns r show ?thesis by (simp add: run_def)
  qed
qed (simp_all add: run_def)

lemma run_fresh:
  "errorMessage p = None \<Longrightarrow> run p inp = run_fn p (initialState inp)"
  by (cases "run_fn p (initialState inp)") (auto simp: run_def)

text \<open>
  Claim C3: where \<open>p\<close> fails with the error \<open>e\<close>, \<open>p.error(m)\<close> fails with the message
  \<open>m\<close> and with the expected list and the position of \<open>e\<close>; both for the transition
  function on any state and for \<open>run\<close> on any input.
\<close>

theorem error_replaces_message:
  "(run_fn p s = Returns (Left e) \<longrightarrow>
      run_fn (error p m) s
        = Returns (Left \<lparr> message = m, expected = expected e, error_pos = error_pos e \<rparr>)) \<and>
   (run p inp = Returns (Left e) \<longrightarrow>
      run (error p m) inp
        = Returns (Left \<lparr> message = m, expected = expected e, error_pos = error_pos e \<rparr>))"
proof (intro conjI impI)
  assume "run_fn p s = Returns (Left e)"
  then show "run_fn (error p m) s
        = Returns (Left \<lparr> message = m, expected = expected e, error_pos = error_pos e \<rparr>)"
    by (simp add: error_def Parser_error_def)
next
  assume "run p inp = Returns (Left e)"
  then obtain e0 where "run_fn p (initialState inp) = Returns (Left e0)"
    and "expected e0 = expected e" and "error_pos e0 = error_pos e"
    using run_failure by blast
  then have "run_fn (error p m) (initialState inp)
        = Returns (Left \<lparr> message = m, expected = expected e, error_pos = error_pos e \<rparr>)"
    by (simp add: error_def Parser_error_def)
  moreover have "errorMessage (error p m) = None"
    by (simp add: error_def)
  ultimately show "run (error p m) inp
        = Returns (Left \<lparr> message = m, expected = expected e, error_pos = error_pos e \<rparr>)"
    by (simp add: run_fresh)
qed

theorem error_replaces_message_witness:
  "run (Parser_fail (utf16 ''boom'') (Some [utf16 ''digit'']) :: jsstring Parser) (utf16 ''ab'')
     = Returns (Left \<lparr> message = utf16 ''boom'', expected = [utf16 ''digit''],
                       error_pos = \<lparr> line = 1, column = 1, offset = 0 \<rparr> \<rparr>) \<and>
   run (error (Parser_fail (utf16 ''boom'') (Some [utf16 ''digit'']) :: jsstring Parser)
          (utf16 ''custom'')) (utf16 ''ab'')
     = Returns (Left \<lparr> message = utf16 ''custom'', expected = [utf16 ''digit''],
                       error_pos = \<lparr> line = 1, column = 1, offset = 0 \<rparr> \<rparr>) \<and>
   run_fn (error (Parser_fail (utf16 ''boom'') (Some [utf16 ''digit'']) :: jsstring Parser)
             (utf16 ''custom'')) (initialState (utf16 ''ab''))
     = Returns (Left \<lparr> message = utf16 ''custom'', expected = [utf16 ''digit''],
                       error_pos = \<lparr> line = 1, column = 1, offset = 0 \<rparr> \<rparr>)"
proof -
  let ?p = "Parser_fail (utf16 ''boom'') (Some [utf16 ''digit'']) :: jsstring Parser"
  let ?e = "\<lparr> message = utf16 ''boom'', expected = [utf16 ''digit''],
              error_pos = \<lparr> line = 1, column = 1, offset = 0 \<rparr> \<rparr>"
  have h1: "run_fn ?p (initialState (utf16 ''ab'')) = Returns (Left ?e)"
    by (simp add: Parser_fail_def Parser_error_def initialState_def)
  have h2: "run ?p (utf16 ''ab'') = Returns (Left ?e)"
    by (simp add: run_def Parser_fail_def Parser_error_def initialState_def)
  note T = error_replaces_message [of ?p "initialState (utf16 ''ab'')" ?e "utf16 ''custom''"
             "utf16 ''ab''"]
  from T h1 have "run_fn (error ?p (utf16 ''custom'')) (initialState (utf16 ''ab''))
        = Returns (Left \<lparr> message = utf16 ''custom'', expected = expected ?e,
                          error_pos = error_pos ?e \<rparr>)"
    by blast
  then have s: "run_fn (error ?p (utf16 ''custom'')) (initialState (utf16 ''ab''))
        = Returns (Left \<lparr> message = utf16 ''custom'', expected = [utf16 ''digit''],
                          error_pos = \<lparr> line = 1, column = 1, offset = 0 \<rparr> \<rparr>)"
    by simp
  from T h2 have "run (error ?p (utf16 ''custom'')) (utf16 ''ab'')
        = Returns (Left \<lparr> message = utf16 ''custom'', expected = expected ?e,
                          error_pos = error_pos ?e \<rparr>)"
    by blast
  then have r: "run (error ?p (utf16 ''custom'')) (utf16 ''ab'')
        = Returns (Left \<lparr> message = utf16 ''custom'', expected = [utf16 ''digit''],
                          error_pos = \<lparr> line = 1, column = 1, offset = 0 \<rparr> \<rparr>)"
    by simp
  from h2 r s show ?thesis by blast
qed

text \<open>
  Claim C4: where \<open>A\<close> fails, \<open>A.flatMap(f)\<close> fails with the error of \<open>A\<close>, with the
  override message of \<open>A\<close> substituted when \<open>A\<close> carries one, and the result is the same
  for any two continuations (the continuation is not called). Through \<open>run\<close>, the failure
  of \<open>A.flatMap(f).run(input)\<close> is the failure of \<open>A.run(input)\<close>.
\<close>

theorem flatMap_short_circuit:
  "(run_fn A s = Returns (Left e) \<longrightarrow>
      run_fn (flatMap A f) s
        = Returns (Left (if truthy (errorMessage A)
                         then \<lparr> message = the (errorMessage A), expected = expected e,
                                error_pos = error_pos e \<rparr>
                         else e)) \<and>
      run_fn (flatMap A f) s = run_fn (flatMap A g) s) \<and>
   (run A inp = Returns (Left e) \<longrightarrow>
      run (flatMap A f) inp = Returns (Left e) \<and>
      run (flatMap A f) inp = run (flatMap A g) inp)"
proof (intro conjI impI)
  assume a: "run_fn A s = Returns (Left e)"
  then show "run_fn (flatMap A f) s
        = Returns (Left (if truthy (errorMessage A)
                         then \<lparr> message = the (errorMessage A), expected = expected e,
                                error_pos = error_pos e \<rparr>
                         else e))"
    by (simp add: flatMap_def Parser_error_def)
  from a show "run_fn (flatMap A f) s = run_fn (flatMap A g) s"
    by (simp add: flatMap_def)
next
  assume "run A inp = Returns (Left e)"
  then obtain e0 where a: "run_fn A (initialState inp) = Returns (Left e0)"
    and e: "e = (if truthy (errorMessage A)
             then \<lparr> message = the (errorMessage A), expected = expected e0, error_pos = error_pos e0 \<rparr>
             else e0)"
    using run_failure by blast
  have fresh: "errorMessage (flatMap A h) = None" for h :: "'a \<Rightarrow> 'c Parser js"
    by (simp add: flatMap_def)
  show "run (flatMap A f) inp = Returns (Left e)"
    using a e by (simp add: run_fresh fresh) (simp add: flatMap_def Parser_error_def)
  show "run (flatMap A f) inp = run (flatMap A g) inp"
    using a by (simp add: run_fresh fresh) (simp add: flatMap_def)
qed

theorem flatMap_short_circuit_witness:
  "run (string_literal (utf16 ''a'')) (utf16 ''xb'')
     = Returns (Left \<lparr> message = utf16 ''no match'', expected = [utf16 ''a''],
                        error_pos = \<lparr> line = 1, column = 1, offset = 0 \<rparr> \<rparr>) \<and>
   run (flatMap (string_literal (utf16 ''a'')) (\<lambda>v. Returns (Parser_pure v))) (utf16 ''xb'')
     = Returns (Left \<lparr> message = utf16 ''no match'', expected = [utf16 ''a''],
                        error_pos = \<lparr> line = 1, column = 1, offset = 0 \<rparr> \<rparr>) \<and>
   run (flatMap (string_literal (utf16 ''a'')) (\<lambda>v. Returns (Parser_pure v))) (utf16 ''xb'')
     = run (flatMap (string_literal (utf16 ''a'')) (\<lambda>v. Throws (utf16 ''never called'')))
         (utf16 ''xb'') \<and>
   run_fn (flatMap (string_literal (utf16 ''a'')) (\<lambda>v. Returns (Parser_pure v)))
       (initialState (utf16 ''xb''))
     = Returns (Left \<lparr> message = utf16 ''no match'', expected = [utf16 ''a''],
                        error_pos = \<lparr> line = 1, column = 1, offset = 0 \<rparr> \<rparr>)"
proof -
  let ?e = "\<lparr> message = utf16 ''no match'', expected = [utf16 ''a''],
              error_pos = \<lparr> line = 1, column = 1, offset = 0 \<rparr> \<rparr>"
  have h1: "run_fn (string_literal (utf16 ''a'')) (initialState (utf16 ''xb'')) = Returns (Left ?e)"
    by (simp add: eval_defs)
  have h2: "run (string_literal (utf16 ''a'')) (utf16 ''xb'') = Returns (Left ?e)"
    by (simp add: run_def new_Parser_def eval_defs)
  have h3: "errorMessage (string_literal (utf16 ''a'')) = None"
    by (simp add: string_literal_def)
  note T = flatMap_short_circuit [of "string_literal (utf16 ''a'')" "initialState (utf16 ''xb'')" ?e
         "\<lambda>v. Returns (Parser_pure v)" "\<lambda>v. Throws (utf16 ''never called'')" "utf16 ''xb''"]
  from T h1 have "run_fn (flatMap (string_literal (utf16 ''a'')) (\<lambda>v. Returns (Parser_pure v)))
       (initialState (utf16 ''xb''))
     = Returns (Left (if truthy (errorMessage (string_literal (utf16 ''a'')))
                      then \<lparr> message = the (errorMessage (string_literal (utf16 ''a''))),
                             expected = expected ?e, error_pos = error_pos ?e \<rparr>
                      else ?e))"
    by blast
  with h3 have s: "run_fn (flatMap (string_literal (utf16 ''a'')) (\<lambda>v. Returns (Parser_pure v)))
       (initialState (utf16 ''xb'')) = Returns (Left ?e)"
    by simp
  from T h2 have r: "run (flatMap (string_literal (utf16 ''a'')) (\<lambda>v. Returns (Parser_pure v)))
         (utf16 ''xb'') = Returns (Left ?e) \<and>
      run (flatMap (string_literal (utf16 ''a'')) (\<lambda>v. Returns (Parser_pure v))) (utf16 ''xb'')
        = run (flatMap (string_literal (utf16 ''a'')) (\<lambda>v. Throws (utf16 ''never called'')))
            (utf16 ''xb'')"
    by blast
  from h2 r s show ?thesis by blast
qed

text \<open>
  Claim C10: where \<open>p\<close> succeeds, \<open>p.error(m)\<close> and \<open>p.error2(fn)\<close> succeed with the
  same value and the same state.
\<close>

theorem error_keeps_success:
  "(run_fn p s = Returns (Right (v, s')) \<longrightarrow>
      run_fn (error p m) s = Returns (Right (v, s')) \<and>
      run_fn (error2 p fn) s = Returns (Right (v, s'))) \<and>
   (run p inp = Returns (Right (v, s')) \<longrightarrow>
      run (error p m) inp = Returns (Right (v, s')) \<and>
      run (error2 p fn) inp = Returns (Right (v, s')))"
proof (intro conjI impI)
  assume "run_fn p s = Returns (Right (v, s'))"
  then show "run_fn (error p m) s = Returns (Right (v, s'))"
    and "run_fn (error2 p fn) s = Returns (Right (v, s'))"
    by (simp_all add: error_def error2_def)
next
  assume "run p inp = Returns (Right (v, s'))"
  then have a: "run_fn p (initialState inp) = Returns (Right (v, s'))"
    by (rule run_success)
  have "errorMessage (error p m) = None" and "errorMessage (error2 p fn) = None"
    by (simp_all add: error_def error2_def)
  then show "run (error p m) inp = Returns (Right (v, s'))"
    and "run (error2 p fn) inp = Returns (Right (v, s'))"
    using a by (simp_all add: run_fresh) (simp_all add: error_def error2_def)
qed

theorem error_keeps_success_witness:
  "run (string_literal (utf16 ''a'')) (utf16 ''ab'')
     = Returns (Right (utf16 ''a'',
         \<lparr> input = utf16 ''b'', pos = \<lparr> line = 1, column = 2, offset = 1 \<rparr> \<rparr>)) \<and>
   run (error (string_literal (utf16 ''a'')) (utf16 ''custom'')) (utf16 ''ab'')
     = Returns (Right (utf16 ''a'',
         \<lparr> input = utf16 ''b'', pos = \<lparr> line = 1, column = 2, offset = 1 \<rparr> \<rparr>)) \<and>
   run (error2 (string_literal (utf16 ''a'')) (\<lambda>e. Returns (message e @ utf16 ''!''))) (utf16 ''ab'')
     = Returns (Right (utf16 ''a'',
         \<lparr> input = utf16 ''b'', pos = \<lparr> line = 1, column = 2, offset = 1 \<rparr> \<rparr>)) \<and>
   run_fn (error (string_literal (utf16 ''a'')) (utf16 ''custom'')) (initialState (utf16 ''ab''))
     = Returns (Right (utf16 ''a'',
         \<lparr> input = utf16 ''b'', pos = \<lparr> line = 1, column = 2, offset = 1 \<rparr> \<rparr>)) \<and>
   run_fn (error2 (string_literal (utf16 ''a'')) (\<lambda>e. Returns (message e @ utf16 ''!'')))
       (initialState (utf16 ''ab''))
     = Returns (Right (utf16 ''a'',
         \<lparr> input = utf16 ''b'', pos = \<lparr> line = 1, column = 2, offset = 1 \<rparr> \<rparr>))"
proof -
  let ?s' = "\<lparr> input = utf16 ''b'', pos = \<lparr> line = 1, column = 2, offset = 1 \<rparr> \<rparr>"
  have h1: "run_fn (string_literal (utf16 ''a'')) (initialState (utf16 ''ab''))
              = Returns (Right (utf16 ''a'', ?s'))"
    by (simp add: eval_defs)
  have h2: "run (string_literal (utf16 ''a'')) (utf16 ''ab'') = Returns (Right (utf16 ''a'', ?s'))"
    by (simp add: run_def new_Parser_def eval_defs)
  from error_keeps_success [of "string_literal (utf16 ''a'')" "initialState (utf16 ''ab'')"
         "utf16 ''a''" ?s' "utf16 ''custom''" "\<lambda>e. Returns (message e @ utf16 ''!'')" "utf16 ''ab''"]
       h1 h2
  show ?thesis by simp
qed

text \<open>
  Claim C7: \<open>A.zip(B)\<close> returns the failure of \<open>A\<close> when \<open>A\<close> fails (whatever \<open>B\<close> is:
  \<open>B\<close> is not run), the failure of \<open>B\<close> when \<open>A\<close> succeeds and \<open>B\<close> fails on the
  state \<open>A\<close> left, and otherwise the pair of both values with the state \<open>B\<close> left.
\<close>

theorem zip_spec:
  "(run_fn A s = Returns (Left e) \<longrightarrow>
      run_fn (zip_parser A B) s = Returns (Left e) \<and>
      run_fn (zip_parser A B) s = run_fn (zip_parser A B') s) \<and>
   (run_fn A s = Returns (Right (a, restA)) \<and> run_fn B restA = Returns (Left e) \<longrightarrow>
      run_fn (zip_parser A B) s = Returns (Left e)) \<and>
   (run_fn A s = Returns (Right (a, restA)) \<and> run_fn B restA = Returns (Right (b, restB)) \<longrightarrow>
      run_fn (zip_parser A B) s = Returns (Right ((a, b), restB)))"
  by (simp add: zip_parser_def)

theorem zip_spec_witness:
  "run_fn (zip_parser (string_literal (utf16 ''foo'')) (string_literal (utf16 ''bar'')))
       (initialState (utf16 ''foobar''))
     = Returns (Right ((utf16 ''foo'', utf16 ''bar''),
         \<lparr> input = [], pos = \<lparr> line = 1, column = 7, offset = 6 \<rparr> \<rparr>)) \<and>
   run_fn (zip_parser (string_literal (utf16 ''foo'')) (string_literal (utf16 ''bar'')))
       (initialState (utf16 ''fooxyz''))
     = Returns (Left \<lparr> message = utf16 ''no match'', expected = [utf16 ''bar''],
                        error_pos = \<lparr> line = 1, column = 4, offset = 3 \<rparr> \<rparr>) \<and>
   run_fn (zip_parser (string_literal (utf16 ''foo'')) (string_literal (utf16 ''bar'')))
       (initialState (utf16 ''xyz''))
     = Returns (Left \<lparr> message = utf16 ''no match'', expected = [utf16 ''foo''],
                        error_pos = \<lparr> line = 1, column = 1, offset = 0 \<rparr> \<rparr>) \<and>
   run_fn (zip_parser (string_literal (utf16 ''foo'')) (string_literal (utf16 ''bar'')))
       (initialState (utf16 ''xyz''))
     = run_fn (zip_parser (string_literal (utf16 ''foo''))
                 (new_Parser (\<lambda>s. Throws (utf16 ''never run'')) None))
         (initialState (utf16 ''xyz''))"
proof -
  let ?A = "string_literal (utf16 ''foo'')" and ?B = "string_literal (utf16 ''bar'')"
  let ?B' = "new_Parser (\<lambda>s. Throws (utf16 ''never run'')) None :: jsstring Parser"
  let ?rest = "\<lparr> input = utf16 ''bar'', pos = \<lparr> line = 1, column = 4, offset = 3 \<rparr> \<rparr>"
  let ?rest' = "\<lparr> input = utf16 ''xyz'', pos = \<lparr> line = 1, column = 4, offset = 3 \<rparr> \<rparr>"
  let ?end = "\<lparr> input = [], pos = \<lparr> line = 1, column = 7, offset = 6 \<rparr> \<rparr>"
  let ?eA = "\<lparr> message = utf16 ''no match'', expected = [utf16 ''foo''],
               error_pos = \<lparr> line = 1, column = 1, offset = 0 \<rparr> \<rparr>"
  let ?eB = "\<lparr> message = utf16 ''no match'', expected = [utf16 ''bar''],
               error_pos = \<lparr> line = 1, column = 4, offset = 3 \<rparr> \<rparr>"
  have a_ok: "run_fn ?A (initialState (utf16 ''foobar'')) = Returns (Right (utf16 ''foo'', ?rest))"
    by (simp add: eval_defs)
  have b_ok: "run_fn ?B ?rest = Returns (Right (utf16 ''bar'', ?end))"
    by (simp add: eval_defs)
  have a_ok': "run_fn ?A (initialState (utf16 ''fooxyz'')) = Returns (Right (utf16 ''foo'', ?rest'))"
    by (simp add: eval_defs)
  have b_fails: "run_fn ?B ?rest' = Returns (Left ?eB)"
    by (simp add: eval_defs)
  have a_fails: "run_fn ?A (initialState (utf16 ''xyz'')) = Returns (Left ?eA)"
    by (simp add: eval_defs)
  from zip_spec [of ?A "initialState (utf16 ''foobar'')" ?eA ?B ?B' "utf16 ''foo''" ?rest
                    "utf16 ''bar''" ?end] a_ok b_ok
  have 1: "run_fn (zip_parser ?A ?B) (initialState (utf16 ''foobar''))
             = Returns (Right ((utf16 ''foo'', utf16 ''bar''), ?end))"
    by blast
  from zip_spec [of ?A "initialState (utf16 ''fooxyz'')" ?eB ?B ?B' "utf16 ''foo''" ?rest'
                    "utf16 ''bar''" ?end] a_ok' b_fails
  have 2: "run_fn (zip_parser ?A ?B) (initialState (utf16 ''fooxyz'')) = Returns (Left ?eB)"
    by blast
  from zip_spec [of ?A "initialState (utf16 ''xyz'')" ?eA ?B ?B' "utf16 ''foo''" ?rest
                    "utf16 ''bar''" ?end] a_fails
  have 3: "run_fn (zip_parser ?A ?B) (initialState (utf16 ''xyz'')) = Returns (Left ?eA) \<and>
           run_fn (zip_parser ?A ?B) (initialState (utf16 ''xyz''))
             = run_fn (zip_parser ?A ?B') (initialState (utf16 ''xyz''))"
    by blast
  from 1 2 3 show ?thesis by blast
qed

text \<open>
  Claim C6: \<open>p.bind(k, other)\<close> runs \<open>p\<close>, then the parser \<open>other\<close> is or returns for
  the value of \<open>p\<close>, on the state \<open>p\<close> left; when both succeed the result is the record
  of \<open>p\<close> with \<open>k\<close> set to the second value, and the second parser's final state. Two
  binds in a row give a record that holds both fields.
\<close>

theorem bind_spec:
  "(run_fn p s = Returns (Right (v, newState)) \<and>
    run_fn q newState = Returns (Right (b, finalState)) \<longrightarrow>
      run_fn (bind p k (IsParser q)) s = Returns (Right (v(k \<mapsto> b), finalState))) \<and>
   (run_fn p s = Returns (Right (v, newState)) \<and> f v = Returns q \<and>
    run_fn q newState = Returns (Right (b, finalState)) \<longrightarrow>
      run_fn (bind p k (IsFunction f)) s = Returns (Right (v(k \<mapsto> b), finalState))) \<and>
   (run_fn p s = Returns (Right (v, s0)) \<and>
    run_fn parserX s0 = Returns (Right (x, s1)) \<and>
    run_fn parserY s1 = Returns (Right (y, s2)) \<longrightarrow>
      run_fn (bind (bind p kx (IsParser parserX)) ky (IsParser parserY)) s
        = Returns (Right (v(kx \<mapsto> x, ky \<mapsto> y), s2)) \<and>
      (v(kx \<mapsto> x, ky \<mapsto> y)) ky = Some y \<and>
      (kx \<noteq> ky \<longrightarrow> (v(kx \<mapsto> x, ky \<mapsto> y)) kx = Some x))"
  by (simp add: bind_def)

theorem bind_spec_witness:
  "run_fn (bind (bind Parser_Do (utf16 ''x'') (IsParser (string_literal (utf16 ''a''))))
             (utf16 ''y'') (IsParser (string_literal (utf16 ''b''))))
       (initialState (utf16 ''ab''))
     = Returns (Right ([utf16 ''x'' \<mapsto> utf16 ''a'', utf16 ''y'' \<mapsto> utf16 ''b''],
         \<lparr> input = [], pos = \<lparr> line = 1, column = 3, offset = 2 \<rparr> \<rparr>)) \<and>
   [utf16 ''x'' \<mapsto> utf16 ''a'', utf16 ''y'' \<mapsto> utf16 ''b''] (utf16 ''x'') = Some (utf16 ''a'') \<and>
   [utf16 ''x'' \<mapsto> utf16 ''a'', utf16 ''y'' \<mapsto> utf16 ''b''] (utf16 ''y'') = Some (utf16 ''b'') \<and>
   run_fn (bind Parser_Do (utf16 ''x'')
             (IsFunction (\<lambda>r. Returns (string_literal (utf16 ''a'')))))
       (initialState (utf16 ''ab''))
     = Returns (Right ([utf16 ''x'' \<mapsto> utf16 ''a''],
         \<lparr> input = utf16 ''b'', pos = \<lparr> line = 1, column = 2, offset = 1 \<rparr> \<rparr>)) \<and>
   run_fn (bind Parser_Do (utf16 ''x'') (IsParser (string_literal (utf16 ''a''))))
       (initialState (utf16 ''ab''))
     = Returns (Right ([utf16 ''x'' \<mapsto> utf16 ''a''],
         \<lparr> input = utf16 ''b'', pos = \<lparr> line = 1, column = 2, offset = 1 \<rparr> \<rparr>))"
proof -
  let ?s0 = "initialState (utf16 ''ab'')"
  let ?s1 = "\<lparr> input = utf16 ''b'', pos = \<lparr> line = 1, column = 2, offset = 1 \<rparr> \<rparr>"
  let ?s2 = "\<lparr> input = [], pos = \<lparr> line = 1, column = 3, offset = 2 \<rparr> \<rparr>"
  let ?Do = "Parser_Do :: (jsstring \<rightharpoonup> jsstring) Parser"
  have p: "run_fn ?Do ?s0 = Returns (Right (Map.empty, ?s0))"
    by (simp add: Parser_Do_def Parser_pure_def)
  have x: "run_fn (string_literal (utf16 ''a'')) ?s0 = Returns (Right (utf16 ''a'', ?s1))"
    by (simp add: eval_defs)
  have y: "run_fn (string_literal (utf16 ''b'')) ?s1 = Returns (Right (utf16 ''b'', ?s2))"
    by (simp add: eval_defs)
  have ne: "utf16 ''x'' \<noteq> utf16 ''y''"
    by simp
  from bind_spec [of ?Do ?s0 Map.empty ?s0 "string_literal (utf16 ''a'')" "utf16 ''a''" ?s1
                     "utf16 ''x''" "\<lambda>r. Returns (string_literal (utf16 ''a''))" ?s0
                     "string_literal (utf16 ''a'')" "utf16 ''a''" ?s1
                     "string_literal (utf16 ''b'')" "utf16 ''b''" ?s2 "utf16 ''x''" "utf16 ''y''"]
       p x y ne
  show ?thesis by simp
qed

section \<open>Parser.gen: properties\<close>

lemma gen_bind_simps [simp]:
  "gen_bind (gen_pure_call (Returns x)) k = k x"
  "gen_bind (gen_pure_call (Throws ex)) k = gen_pure_call (Throws ex)"
  "gen_bind (gen_pure_call OutOfFuel) k = gen_pure_call OutOfFuel"
  by (simp_all add: gen_bind_def gen_pure_call_def fun_eq_iff)

lemma gen_sel [simp]:
  "gen_run_fn (of_Parser p) s it = (run_fn p s, it)"
  "gen_errorMessage (of_Parser p) = errorMessage p"
  "gen_errorMessage (flatMap_gen this f) = None"
  by (simp_all add: of_Parser_def flatMap_gen_def gen_pure_call_def)

lemma flatMap_gen_run:
  "gen_run_fn (flatMap_gen this f) s it =
     (case run_fn this s of
        Returns (Left e) \<Rightarrow>
          (Returns (Left (if truthy (errorMessage this)
                          then e \<lparr> message := the (errorMessage this) \<rparr> else e)), it)
      | Returns (Right (v, s')) \<Rightarrow>
          (case f v it of
             (Returns q, it') \<Rightarrow> gen_run_fn q s' it'
           | (Throws ex, it') \<Rightarrow> (Throws ex, it')
           | (OutOfFuel, it') \<Rightarrow> (OutOfFuel, it'))
      | Throws ex \<Rightarrow> (Throws ex, it)
      | OutOfFuel \<Rightarrow> (OutOfFuel, it))"
  by (auto simp: flatMap_gen_def gen_bind_def gen_pure_call_def Parser_error_def
           split: js.splits Either.splits prod.splits)

text \<open>
  On a callback that leaves the generator object alone, \<open>flatMap_gen\<close> is \<open>flatMap\<close>.
\<close>

lemma flatMap_gen_pure:
  "gen_run_fn (flatMap_gen this (\<lambda>v. gen_pure_call (js_bind (f v) (\<lambda>q. Returns (of_Parser q))))) s it
     = (run_fn (flatMap this f) s, it)"
proof (cases "run_fn this s")
  case (Returns result)
  show ?thesis
  proof (cases result)
    case (Left e)
    with Returns show ?thesis
      by (simp add: flatMap_gen_run flatMap_def Parser_error_def)
  next
    case (Right vs)
    obtain v s' where "vs = (v, s')" by (cases vs)
    with Returns Right show ?thesis
      by (cases "f v") (simp_all add: flatMap_gen_run flatMap_def gen_pure_call_def)
  qed
qed (simp_all add: flatMap_gen_run flatMap_def)

lemma gen_exec_0 [simp]: "gen_exec body 0 r s it = (OutOfFuel, it)"
  by (simp add: gen_exec_def gen_pure_call_def)

lemma gen_exec_return_parser [simp]:
  "gen_exec body (Suc n) (IteratorReturnResult (ParserValue p)) s it = (run_fn p s, it)"
  by (simp add: gen_exec_def)

lemma gen_exec_return_value [simp]:
  "\<not> is_Parser v \<Longrightarrow>
   gen_exec body (Suc n) (IteratorReturnResult v) s it = (Returns (Right (v, s)), it)"
  by (cases v) (simp_all add: gen_exec_def Parser_pure_def)

lemma gen_exec_yield_value [simp]:
  "\<not> is_Parser v \<Longrightarrow>
   gen_exec body (Suc n) (IteratorYieldResult v) s it = (Throws (utf16 ''Expected a Parser''), it)"
  by (cases v) (simp_all add: gen_exec_def gen_pure_call_def)

lemma gen_exec_yield_parser:
  "gen_exec body (Suc n) (IteratorYieldResult (ParserValue p)) s it =
     (case run_fn p s of
        Returns (Left e) \<Rightarrow>
          (Returns (Left (if truthy (errorMessage p) then e \<lparr> message := the (errorMessage p) \<rparr> else e)),
           it)
      | Returns (Right (v, s')) \<Rightarrow>
          (case iterator_next body v it of
             (Returns r', it') \<Rightarrow> gen_exec body n r' s' it'
           | (Throws ex, it') \<Rightarrow> (Throws ex, it')
           | (OutOfFuel, it') \<Rightarrow> (OutOfFuel, it'))
      | Throws ex \<Rightarrow> (Throws ex, it)
      | OutOfFuel \<Rightarrow> (OutOfFuel, it))"
  by (auto simp: gen_exec_def flatMap_gen_run gen_bind_def gen_pure_call_def
           split: js.splits Either.splits prod.splits)

lemma gen_spec_enough_fuel:
  "gen_spec body it r s out final \<Longrightarrow> \<exists>n. \<forall>m\<ge>n. gen_exec body m r s it = (out, final)"
proof (induction rule: gen_spec.induct)
  case (final_parser iterator p s)
  have "\<forall>m\<ge>Suc 0. gen_exec body m (IteratorReturnResult (ParserValue p)) s iterator
          = (run_fn p s, iterator)"
    by (auto simp: Suc_le_eq gr0_conv_Suc)
  then show ?case ..
next
  case (final_value v iterator s)
  then have "\<forall>m\<ge>Suc 0. gen_exec body m (IteratorReturnResult v) s iterator
          = (Returns (Right (v, s)), iterator)"
    by (auto simp: Suc_le_eq gr0_conv_Suc)
  then show ?case ..
next
  case (yielded_fails p s e iterator)
  then have "\<forall>m\<ge>Suc 0. gen_exec body m (IteratorYieldResult (ParserValue p)) s iterator
      = (Returns (Left (if truthy (errorMessage p) then e \<lparr> message := the (errorMessage p) \<rparr> else e)),
         iterator)"
    by (auto simp: Suc_le_eq gr0_conv_Suc gen_exec_yield_parser)
  then show ?case ..
next
  case (yielded_succeeds p s v s' iterator state' iterator' out final)
  then obtain n where n: "\<forall>m\<ge>n. gen_exec body m state' s' iterator' = (out, final)"
    by blast
  have "\<forall>m\<ge>Suc n. gen_exec body m (IteratorYieldResult (ParserValue p)) s iterator = (out, final)"
  proof (intro allI impI)
    fix m assume "Suc n \<le> m"
    then obtain k where m: "m = Suc k" and "n \<le> k"
      by (cases m) auto
    with n have "gen_exec body k state' s' iterator' = (out, final)" by blast
    with yielded_succeeds.hyps(1,2) show
      "gen_exec body m (IteratorYieldResult (ParserValue p)) s iterator = (out, final)"
      by (simp add: m gen_exec_yield_parser)
  qed
  then show ?case ..
qed

lemma gen_exec_sound:
  "gen_exec body n r s it = (Returns x, final) \<Longrightarrow> gen_spec body it r s (Returns x) final"
proof (induction n arbitrary: it r s)
  case 0
  then show ?case by simp
next
  case (Suc n)
  show ?case
  proof (cases r)
    case (IteratorReturnResult v)
    show ?thesis
    proof (cases "is_Parser v")
      case True
      then obtain p where "v = ParserValue p" by (cases v) auto
      with Suc.prems IteratorReturnResult show ?thesis
        using gen_spec.final_parser [of body it p s] by simp
    next
      case False
      with Suc.prems IteratorReturnResult show ?thesis
        using gen_spec.final_value [of v body it s] by simp
    qed
  next
    case (IteratorYieldResult v)
    show ?thesis
    proof (cases "is_Parser v")
      case False
      with Suc.prems IteratorYieldResult show ?thesis by simp
    next
      case True
      then obtain p where v: "v = ParserValue p" by (cases v) auto
      from Suc.prems IteratorYieldResult v
      have ex: "gen_exec body (Suc n) (IteratorYieldResult (ParserValue p)) s it = (Returns x, final)"
        by simp
      show ?thesis
      proof (cases "run_fn p s")
        case (Returns result)
        show ?thesis
        proof (cases result)
          case (Left e)
          with ex Returns have "x = Left (if truthy (errorMessage p)
                                          then e \<lparr> message := the (errorMessage p) \<rparr> else e)"
            and "final = it"
            by (simp_all add: gen_exec_yield_parser)
          with Returns Left IteratorYieldResult v show ?thesis
            using gen_spec.yielded_fails [of p s e body it] by simp
        next
          case (Right vs)
          obtain v' s' where vs: "vs = (v', s')" by (cases vs)
          obtain o' it' where nx0: "iterator_next body v' it = (o', it')"
            by (cases "iterator_next body v' it")
          with ex Returns Right vs obtain r' where
            nx: "iterator_next body v' it = (Returns r', it')" and
            rest: "gen_exec body n r' s' it' = (Returns x, final)"
            by (cases o') (auto simp: gen_exec_yield_parser)
          from rest have "gen_spec body it' r' s' (Returns x) final" by (rule Suc.IH)
          with Returns Right vs nx IteratorYieldResult v show ?thesis
            using gen_spec.yielded_succeeds [of p s v' s' body it r' it' "Returns x" final] by simp
        qed
      qed (use ex in \<open>simp_all add: gen_exec_yield_parser\<close>)
    qed
  qed
qed

lemma gen_spec_builds:
  assumes "gen_spec body it r s out final"
  obtains p where "gen_run body (Suc k) r = Returns p"
  using assms
proof (cases rule: gen_spec.cases)
  case (final_value v)
  then show ?thesis using that by (cases v) auto
qed (use that in auto)

lemma Parser_gen_built:
  "Parser_gen body init fuel = (Returns p, built) \<Longrightarrow>
   \<exists>r. iterator_next body Undefined (Suspended init) = (Returns r, built) \<and>
       gen_run body fuel r = Returns p"
proof -
  assume a: "Parser_gen body init fuel = (Returns p, built)"
  obtain o' it' where nx: "iterator_next body Undefined (Suspended init) = (o', it')"
    by (cases "iterator_next body Undefined (Suspended init)")
  with a show ?thesis
    by (cases o') (auto simp: Parser_gen_def gen_bind_def gen_pure_call_def)
qed

text \<open>
  A run of the parser of \<open>gen\<close> that finds the generator object as the building left it
  is the driving of the sequence from the first result: every result it returns is an
  outcome of the driving, and every outcome of the driving is reached with enough fuel.
\<close>

lemma gen_first_run_sound:
  assumes "Parser_gen body init fuel = (Returns p, built)"
    and "gen_run_fn p s built = (Returns x, final)"
  shows "\<exists>r. iterator_next body Undefined (Suspended init) = (Returns r, built) \<and>
             gen_spec body built r s (Returns x) final"
proof -
  from Parser_gen_built [OF assms(1)] obtain r where
    nx: "iterator_next body Undefined (Suspended init) = (Returns r, built)" and
    p: "gen_run body fuel r = Returns p"
    by blast
  from p assms(2) have "gen_exec body fuel r s built = (Returns x, final)"
    by (simp add: gen_exec_def)
  then have "gen_spec body built r s (Returns x) final"
    by (rule gen_exec_sound)
  with nx show ?thesis by blast
qed

lemma gen_first_run_enough_fuel:
  assumes "iterator_next body Undefined (Suspended init) = (Returns r, built)"
    and "gen_spec body built r s out final"
  shows "\<exists>n. \<forall>m\<ge>n. \<exists>p. Parser_gen body init m = (Returns p, built) \<and>
                          gen_run_fn p s built = (out, final)"
proof -
  from assms(2) obtain n where n: "\<forall>m\<ge>n. gen_exec body m r s built = (out, final)"
    using gen_spec_enough_fuel by blast
  have "\<exists>p. Parser_gen body init m = (Returns p, built) \<and> gen_run_fn p s built = (out, final)"
    if "Suc n \<le> m" for m
  proof -
    from that obtain k where m: "m = Suc k" by (cases m) auto
    from that n have ex: "gen_exec body m r s built = (out, final)" by simp
    from assms(2) obtain p where p: "gen_run body m r = Returns p"
      unfolding m by (rule gen_spec_builds)
    with ex have "gen_run_fn p s built = (out, final)"
      by (simp add: gen_exec_def)
    moreover from p assms(1) have "Parser_gen body init m = (Returns p, built)"
      by (simp add: Parser_gen_def gen_bind_def gen_pure_call_def)
    ultimately show ?thesis by blast
  qed
  then show ?thesis by blast
qed

lemmas gen_eval_defs =
  Parser_gen_def run_gen_def iterator_next_def example_generator_def gen_bind_def
  gen_pure_call_def flatMap_gen_def of_Parser_def map_parser_def Parser_pure_def

text \<open>
  Claim C5, at the input where the code departs from it: the parser that \<open>gen\<close> builds for
  \<open>example_generator\<close>, run twice on \<open>"ab"\<close>. The first run drives the sequence (\<open>A\<close>,
  then \<open>B\<close>, then the final value \<open>"b"\<close> with nothing left) and leaves the generator
  object completed. The second run of the same parser runs \<open>A\<close>, sends its value to the
  completed generator, and succeeds with \<open>undefined\<close> and the rest \<open>"b"\<close>: \<open>B\<close> is not
  run and the final value of the generator function is not returned.
\<close>

theorem gen_parser_second_run:
  "(case Parser_gen example_generator AtStart (Suc (Suc (Suc 0))) of
      (Returns p, built) \<Rightarrow>
        (case run_gen p (utf16 ''ab'') built of
           (first, after_first) \<Rightarrow>
             (case run_gen p (utf16 ''ab'') after_first of
                (second, after_second) \<Rightarrow>
                  built = Suspended AfterA \<and>
                  first = Returns (Right (Plain (utf16 ''b''),
                            \<lparr> input = [], pos = \<lparr> line = 1, column = 3, offset = 2 \<rparr> \<rparr>)) \<and>
                  after_first = Completed \<and>
                  second = Returns (Right (Undefined,
                            \<lparr> input = utf16 ''b'', pos = \<lparr> line = 1, column = 2, offset = 1 \<rparr> \<rparr>)) \<and>
                  after_second = Completed))
    | (Throws e, built) \<Rightarrow> False
    | (OutOfFuel, built) \<Rightarrow> False)"
  by (simp add: gen_eval_defs eval_defs)

end
